theory Spec2Isabelle
  imports Complex_Main "HOL-Library.Sublist" "HOL-Library.Word" "HOL-Library.Log_Nat"
begin

unbundle bit_operations_syntax

section \<open>Errors\<close>

text \<open>
  The exceptions the modelled code can raise. \<open>ValueError\<close> carries the rule that was
  violated (the source formats a message from it); \<open>ReError\<close> stands for the
  \<open>re.error\<close> of a pattern that the regular-expression library refuses to compile.
\<close>

datatype reason = EmptyPattern | NonHexPattern | PatternTooLong | InvalidDestType

datatype error =
    ValueError reason
  | RuntimeError
  | OverflowError
  | ZeroDivisionError
  | AttributeError
  | ReError

section \<open>Python strings\<close>

text \<open>
  A Python \<open>str\<close> is a sequence of code points. The model uses \<open>string\<close> and reads
  each \<open>char\<close> as one code point in the range 0..255; \<open>isspace\<close> and \<open>lower\<close>
  are Python's on that range.
\<close>

definition isspace :: "char \<Rightarrow> bool" where
  "isspace c =
     (let n = (of_char c :: nat)
      in (9 \<le> n \<and> n \<le> 13) \<or> (28 \<le> n \<and> n \<le> 32) \<or> n = 133 \<or> n = 160)"

definition lower_char :: "char \<Rightarrow> char" where
  "lower_char c =
     (let n = (of_char c :: nat)
      in if (65 \<le> n \<and> n \<le> 90) \<or> (192 \<le> n \<and> n \<le> 222 \<and> n \<noteq> 215)
         then char_of (n + 32) else c)"

definition lower :: "string \<Rightarrow> string" where
  "lower s = map lower_char s"

definition lstrip :: "string \<Rightarrow> string" where
  "lstrip s = dropWhile isspace s"

definition rstrip :: "string \<Rightarrow> string" where
  "rstrip s = rev (dropWhile isspace (rev s))"

definition strip :: "string \<Rightarrow> string" where
  "strip s = rstrip (lstrip s)"

text \<open>\<open>s.startswith(p)\<close>: \<open>p\<close> is no longer than \<open>s\<close> and equals its first characters.\<close>

definition startswith :: "string \<Rightarrow> string \<Rightarrow> bool" where
  "startswith s p = (length p \<le> length s \<and> take (length p) s = p)"

text \<open>\<open>s.endswith(p)\<close>: \<open>p\<close> is no longer than \<open>s\<close> and equals its last characters.\<close>

definition endswith :: "string \<Rightarrow> string \<Rightarrow> bool" where
  "endswith s p = (length p \<le> length s \<and> drop (length s - length p) s = p)"

text \<open>\<open>p in s\<close>: a left-to-right scan for a position where \<open>p\<close> starts.\<close>

fun str_contains :: "string \<Rightarrow> string \<Rightarrow> bool" where
  "str_contains p [] = startswith [] p"
| "str_contains p (c # cs) = (startswith (c # cs) p \<or> str_contains p cs)"

section \<open>matcher.py\<close>

datatype MatchMode = PREFIX | SUFFIX | CONTAINS | REGEX

record MatchPattern =
  mode :: MatchMode
  pattern :: string
  case_sensitive :: bool

text \<open>
  The regular-expression library is not part of the repository. It enters the model as
  two parameters: \<open>re_compile p flags\<close> for \<open>re.compile\<close>, which is \<open>None\<close> when the
  library raises on the pattern (the exception is \<open>ReError\<close> in the model), and
  \<open>re_search r x\<close> for the truth value of \<open>r.search(x)\<close>, the unanchored search.
\<close>

datatype re_flags = NoFlags | IGNORECASE

datatype 'rx CompiledPattern = CompiledPattern MatchMode string "'rx option"

definition compile ::
  "(string \<Rightarrow> re_flags \<Rightarrow> 'rx option) \<Rightarrow> MatchPattern \<Rightarrow> error + 'rx CompiledPattern" where
  "compile re_compile self =
     (if mode self = REGEX then
        (let flags = (if case_sensitive self then NoFlags else IGNORECASE)
         in case re_compile (pattern self) flags of
              None \<Rightarrow> Inl ReError
            | Some r \<Rightarrow> Inr (CompiledPattern (mode self) (pattern self) (Some r)))
      else Inr (CompiledPattern (mode self) (pattern self) None))"

fun matches :: "('rx \<Rightarrow> string \<Rightarrow> bool) \<Rightarrow> 'rx CompiledPattern \<Rightarrow> string \<Rightarrow> error + bool" where
  "matches re_search (CompiledPattern PREFIX p rx) hex_addr = Inr (startswith hex_addr p)"
| "matches re_search (CompiledPattern SUFFIX p rx) hex_addr = Inr (endswith hex_addr p)"
| "matches re_search (CompiledPattern CONTAINS p rx) hex_addr = Inr (str_contains p hex_addr)"
| "matches re_search (CompiledPattern REGEX p None) hex_addr = Inl AttributeError"
| "matches re_search (CompiledPattern REGEX p (Some r)) hex_addr = Inr (re_search r hex_addr)"

definition hexdigits :: string where
  "hexdigits = ''0123456789abcdef''"

definition validate_hex_pattern :: "string \<Rightarrow> error + string" where
  "validate_hex_pattern pat =
     (let cleaned = strip (lower pat)
      in if cleaned = [] then Inl (ValueError EmptyPattern)
         else if \<not> list_all (\<lambda>c. c \<in> set hexdigits) cleaned then Inl (ValueError NonHexPattern)
         else if length cleaned > 32 then Inl (ValueError PatternTooLong)
         else Inr cleaned)"

text \<open>
  The semantic predicate of a match specification, as the specification words it:
  starts-with, ends-with, substring anywhere, and the unanchored search of the regular
  expression compiled case-insensitively unless case sensitivity was requested.
\<close>

definition semantic_predicate ::
  "(string \<Rightarrow> re_flags \<Rightarrow> 'rx option) \<Rightarrow> ('rx \<Rightarrow> string \<Rightarrow> bool)
     \<Rightarrow> MatchPattern \<Rightarrow> string \<Rightarrow> error + bool" where
  "semantic_predicate re_compile re_search spec x =
     (case mode spec of
        PREFIX \<Rightarrow> Inr (prefix (pattern spec) x)
      | SUFFIX \<Rightarrow> Inr (suffix (pattern spec) x)
      | CONTAINS \<Rightarrow> Inr (sublist (pattern spec) x)
      | REGEX \<Rightarrow>
          (case re_compile (pattern spec) (if case_sensitive spec then NoFlags else IGNORECASE) of
             None \<Rightarrow> Inl ReError
           | Some r \<Rightarrow> Inr (re_search r x)))"

text \<open>The characters the specification calls hex, case-insensitively.\<close>

definition hexdigits_ci :: string where
  "hexdigits_ci = ''0123456789abcdefABCDEF''"

definition hex_ci :: "char \<Rightarrow> bool" where
  "hex_ci c = (c \<in> set hexdigits_ci)"


section \<open>SHA-256\<close>

text \<open>
  \<open>hashlib.sha256\<close> is the hash function of FIPS 180-4, modelled here on byte lists:
  padding, the message schedule and the 64 rounds of the compression function over
  32-bit words.
\<close>

type_synonym u8 = "8 word"
type_synonym u32 = "32 word"
type_synonym bytes = "u8 list"


definition rotr :: "nat \<Rightarrow> u32 \<Rightarrow> u32" where
  "rotr n x = drop_bit n x OR push_bit (32 - n) x"

definition Ch :: "u32 \<Rightarrow> u32 \<Rightarrow> u32 \<Rightarrow> u32" where
  "Ch x y z = (x AND y) XOR (NOT x AND z)"

definition Maj :: "u32 \<Rightarrow> u32 \<Rightarrow> u32 \<Rightarrow> u32" where
  "Maj x y z = (x AND y) XOR (x AND z) XOR (y AND z)"

definition bsig0 :: "u32 \<Rightarrow> u32" where
  "bsig0 x = rotr 2 x XOR rotr 13 x XOR rotr 22 x"

definition bsig1 :: "u32 \<Rightarrow> u32" where
  "bsig1 x = rotr 6 x XOR rotr 11 x XOR rotr 25 x"

definition ssig0 :: "u32 \<Rightarrow> u32" where
  "ssig0 x = rotr 7 x XOR rotr 18 x XOR drop_bit 3 x"

definition ssig1 :: "u32 \<Rightarrow> u32" where
  "ssig1 x = rotr 17 x XOR rotr 19 x XOR drop_bit 10 x"

text \<open>
  The round constants \<open>K\<close> of FIPS 180-4, section 4.2.2, and the initial hash value
  of section 5.3.3, as decimal numerals: the first 32 bits of the fractional parts of the
  cube roots of the first 64 primes, and of the square roots of the first 8 primes.
\<close>

definition sha256_K :: "u32 list" where
  "sha256_K =
    [1116352408, 1899447441, 3049323471, 3921009573, 961987163, 1508970993,
     2453635748, 2870763221, 3624381080, 310598401, 607225278, 1426881987,
     1925078388, 2162078206, 2614888103, 3248222580, 3835390401, 4022224774,
     264347078, 604807628, 770255983, 1249150122, 1555081692, 1996064986,
     2554220882, 2821834349, 2952996808, 3210313671, 3336571891, 3584528711,
     113926993, 338241895, 666307205, 773529912, 1294757372, 1396182291,
     1695183700, 1986661051, 2177026350, 2456956037, 2730485921, 2820302411,
     3259730800, 3345764771, 3516065817, 3600352804, 4094571909, 275423344,
     430227734, 506948616, 659060556, 883997877, 958139571, 1322822218,
     1537002063, 1747873779, 1955562222, 2024104815, 2227730452, 2361852424,
     2428436474, 2756734187, 3204031479, 3329325298]"

definition sha256_H0 :: "u32 list" where
  "sha256_H0 =
    [1779033703, 3144134277, 1013904242, 2773480762, 1359893119, 2600822924,
     528734635, 1541459225]"

text \<open>Padding: a 1 bit, zeros up to 56 modulo 64 bytes, the bit length in 8 bytes, big-endian.\<close>

definition len_bytes :: "64 word \<Rightarrow> u8 list" where
  "len_bytes n = map (\<lambda>i. ucast (drop_bit (8 * (7 - i)) n)) [0..<8]"

definition sha256_pad :: "u8 list \<Rightarrow> u8 list" where
  "sha256_pad m =
     m @ [0x80] @ replicate ((119 - length m mod 64) mod 64) 0
       @ len_bytes (word_of_nat (8 * length m))"

fun be_words :: "u8 list \<Rightarrow> u32 list" where
  "be_words (a # b # c # d # r) =
     (push_bit 24 (ucast a) OR push_bit 16 (ucast b) OR push_bit 8 (ucast c) OR ucast d) # be_words r"
| "be_words _ = []"

fun schedule :: "nat \<Rightarrow> u32 list \<Rightarrow> u32 list" where
  "schedule 0 w = w"
| "schedule (Suc k) w =
     (let n = length w
      in schedule k (w @ [ssig1 (w ! (n - 2)) + w ! (n - 7) + ssig0 (w ! (n - 15)) + w ! (n - 16)]))"

fun round256 :: "u32 list \<Rightarrow> u32 \<times> u32 \<Rightarrow> u32 list" where
  "round256 [a, b, c, d, e, f, g, h] (k, w) =
     (let t1 = h + bsig1 e + Ch e f g + k + w;
          t2 = bsig0 a + Maj a b c
      in [t1 + t2, a, b, c, d + t1, e, f, g])"
| "round256 s _ = s"

definition compress :: "u32 list \<Rightarrow> u8 list \<Rightarrow> u32 list" where
  "compress hs block =
     map2 (+) hs (foldl round256 hs (zip sha256_K (schedule 48 (be_words block))))"

function blocks64 :: "u8 list \<Rightarrow> u8 list list" where
  "blocks64 m = (if length m < 64 then [] else take 64 m # blocks64 (drop 64 m))"
  by pat_completeness auto
termination
  by (relation "measure length") auto

definition word_bytes :: "u32 \<Rightarrow> u8 list" where
  "word_bytes w = [ucast (drop_bit 24 w), ucast (drop_bit 16 w), ucast (drop_bit 8 w), ucast w]"

definition sha256 :: "u8 list \<Rightarrow> u8 list" where
  "sha256 m = concat (map word_bytes (foldl compress sha256_H0 (blocks64 (sha256_pad m))))"

text \<open>\<open>str.encode("utf-8")\<close> on code points below 256: one byte below 128, two bytes from 128 on.\<close>

definition utf8_char :: "char \<Rightarrow> u8 list" where
  "utf8_char c =
     (let n = (of_char c :: nat)
      in if n < 128 then [word_of_nat n]
         else [word_of_nat (192 + n div 64), word_of_nat (128 + n mod 64)])"

definition encode_utf8 :: "string \<Rightarrow> u8 list" where
  "encode_utf8 s = concat (map utf8_char s)"


section \<open>core.py\<close>

definition NAME_HASH_LENGTH :: nat where
  "NAME_HASH_LENGTH = 80"

definition TRUNCATED_HASHLENGTH :: nat where
  "TRUNCATED_HASHLENGTH = 128"

text \<open>\<open>bytes.hex()\<close>: two lowercase hex digits for each byte.\<close>

definition hex_digit :: "nat \<Rightarrow> char" where
  "hex_digit n = hexdigits ! (n mod 16)"

definition bytes_hex :: "bytes \<Rightarrow> string" where
  "bytes_hex bs = concat (map (\<lambda>b. [hex_digit (unat b div 16), hex_digit (unat b mod 16)]) bs)"

text \<open>
  The precomputed name hashes, \<open>bytes.fromhex("6ec60bc318e2c0f0d908")\<close> and
  \<open>bytes.fromhex("213e6311bcec54ab4fde")\<close>, byte by byte.
\<close>

definition LXMF_NAME_HASH :: bytes where
  "LXMF_NAME_HASH = [0x6e, 0xc6, 0x0b, 0xc3, 0x18, 0xe2, 0xc0, 0xf0, 0xd9, 0x08]"

definition NOMADNET_NAME_HASH :: bytes where
  "NOMADNET_NAME_HASH = [0x21, 0x3e, 0x63, 0x11, 0xbc, 0xec, 0x54, 0xab, 0x4f, 0xde]"

definition DEST_NAME_HASHES :: "string \<rightharpoonup> bytes" where
  "DEST_NAME_HASHES =
     [''lxmf.delivery'' \<mapsto> LXMF_NAME_HASH, ''nomadnetwork.node'' \<mapsto> NOMADNET_NAME_HASH]"

definition compute_name_hash :: "string \<Rightarrow> bytes" where
  "compute_name_hash dest_name = take (NAME_HASH_LENGTH div 8) (sha256 (encode_utf8 dest_name))"

text \<open>
  \<open>generate_and_hash\<close> draws two fresh key pairs from the cryptography library. The
  drawn key material is the input \<open>keys\<close> of the model: the raw private and public
  bytes of the X25519 pair and of the Ed25519 pair.
\<close>

record keypairs =
  x_prv :: bytes
  x_pub :: bytes
  e_prv :: bytes
  e_pub :: bytes

type_synonym candidate = "bytes \<times> bytes \<times> string"

definition generate_and_hash :: "bytes \<Rightarrow> keypairs \<Rightarrow> candidate" where
  "generate_and_hash name_hash keys =
     (let identity_hash = take 16 (sha256 (x_pub keys @ e_pub keys));
          dest_hash = take 16 (sha256 (name_hash @ identity_hash))
      in (x_prv keys @ e_prv keys, identity_hash, bytes_hex dest_hash))"

definition identity_hash_from_pub :: "bytes \<Rightarrow> bytes \<Rightarrow> bytes" where
  "identity_hash_from_pub x25519_pub ed25519_pub =
     take (TRUNCATED_HASHLENGTH div 8) (sha256 (x25519_pub @ ed25519_pub))"

definition dest_hash_from_identity_hash :: "bytes \<Rightarrow> bytes \<Rightarrow> bytes" where
  "dest_hash_from_identity_hash name_hash identity_hash =
     take (TRUNCATED_HASHLENGTH div 8) (sha256 (name_hash @ identity_hash))"

section \<open>Python floats\<close>

text \<open>
  A finite Python float is an IEEE 754 binary64 number, a rational. \<open>binary64 x\<close> is
  the rational \<open>x\<close> rounded to the nearest number with a 53-bit significand and an
  exponent of at least \<open>-1022\<close>, ties to even; the exponent is not bounded above, so
  that a result of magnitude \<open>float_limit\<close>, which is \<open>2 ^ 1024\<close>, or more marks an overflow.
\<close>

function floor_log2 :: "int \<Rightarrow> nat" where
  "floor_log2 n = (if n < 2 then 0 else Suc (floor_log2 (n div 2)))"
  by pat_completeness auto
termination
  by (relation "measure nat") auto

definition pow2 :: "int \<Rightarrow> rat" where
  "pow2 e = (if 0 \<le> e then 2 ^ nat e else 1 / 2 ^ nat (- e))"

text \<open>The exponent \<open>e\<close> with \<open>2 ^ e \<le> x < 2 ^ (e + 1)\<close>, for a positive \<open>x\<close>.\<close>

definition exponent_of :: "rat \<Rightarrow> int" where
  "exponent_of x =
     (let (a, b) = quotient_of x;
          d = int (floor_log2 a) - int (floor_log2 b)
      in if pow2 d \<le> x then d else d - 1)"

definition round_half_even :: "rat \<Rightarrow> int" where
  "round_half_even x =
     (let f = \<lfloor>x\<rfloor>;
          r = x - of_int f
      in if r < 1 / 2 then f
         else if 1 / 2 < r then f + 1
         else if even f then f else f + 1)"

definition binary64 :: "rat \<Rightarrow> rat" where
  "binary64 x =
     (if x = 0 then 0
      else
        (let a = \<bar>x\<bar>;
             p = max (exponent_of a) (- 1022) - 52
         in sgn x * of_int (round_half_even (a / pow2 p)) * pow2 p))"

text \<open>
  \<open>a / b\<close> on two Python integers: the correctly rounded quotient, \<open>ZeroDivisionError\<close>
  for a zero divisor and \<open>OverflowError\<close> for a quotient too large for a float.
\<close>

definition float_limit :: rat where
  "float_limit = 2 ^ 1024"

definition int_truediv :: "int \<Rightarrow> int \<Rightarrow> error + rat" where
  "int_truediv a b =
     (if b = 0 then Inl ZeroDivisionError
      else
        (let r = binary64 (of_int a / of_int b)
         in if float_limit \<le> \<bar>r\<bar> then Inl OverflowError else Inr r))"

text \<open>
  \<open>x / n\<close> on a float and a non-zero integer \<open>n\<close> that is a float itself, with
  \<open>1 \<le> \<bar>n\<bar>\<close>: the quotient is no larger than \<open>x\<close> and is rounded correctly.
\<close>

definition float_div_int :: "rat \<Rightarrow> int \<Rightarrow> rat" where
  "float_div_int x n = binary64 (x / of_int n)"

text \<open>A Python number: an \<open>int\<close> or a \<open>float\<close>. \<open>int(x)\<close> truncates towards zero.\<close>

datatype pynum = PyInt int | PyFloat rat

fun num_value :: "pynum \<Rightarrow> rat" where
  "num_value (PyInt n) = of_int n"
| "num_value (PyFloat x) = x"

fun py_int :: "pynum \<Rightarrow> int" where
  "py_int (PyInt n) = n"
| "py_int (PyFloat x) = (if 0 \<le> x then \<lfloor>x\<rfloor> else \<lceil>x\<rceil>)"

section \<open>The difficulty estimate\<close>

record difficulty =
  expected_attempts :: "int option"
  estimated_seconds_per_core :: "rat option"
  difficulty_description :: string

definition describe_difficulty :: "rat \<Rightarrow> string" where
  "describe_difficulty expected =
     (if expected < 100 then ''Instant''
      else if expected < 100000 then ''Seconds''
      else if expected < 10000000 then ''Minutes''
      else if expected < 1000000000 then ''Hours''
      else if expected < 100000000000 then ''Days''
      else ''Weeks+ (consider a shorter pattern)'')"

text \<open>\<open>expected\<close> of \<open>estimate_difficulty\<close>: \<open>None\<close> in regex mode, which returns early.\<close>

definition expected_of :: "MatchPattern \<Rightarrow> error + pynum option" where
  "expected_of pat =
     (case mode pat of
        PREFIX \<Rightarrow> Inr (Some (PyInt (16 ^ length (pattern pat))))
      | SUFFIX \<Rightarrow> Inr (Some (PyInt (16 ^ length (pattern pat))))
      | CONTAINS \<Rightarrow>
          (let n = int (length (pattern pat));
               positions = max 1 (32 - n + 1)
           in case int_truediv (16 ^ nat n) positions of
                Inl e \<Rightarrow> Inl e
              | Inr x \<Rightarrow> Inr (Some (PyFloat x)))
      | REGEX \<Rightarrow> Inr None)"

definition estimate_difficulty :: "MatchPattern \<Rightarrow> error + difficulty" where
  "estimate_difficulty pat =
     (case expected_of pat of
        Inl e \<Rightarrow> Inl e
      | Inr None \<Rightarrow>
          Inr \<lparr>expected_attempts = None, estimated_seconds_per_core = None,
               difficulty_description = ''Cannot estimate for regex''\<rparr>
      | Inr (Some expected) \<Rightarrow>
          (let keys_per_sec = 5000
           in case (if 0 < num_value expected
                    then (case expected of
                            PyInt n \<Rightarrow> map_sum id Some (int_truediv n keys_per_sec)
                          | PyFloat x \<Rightarrow> Inr (Some (float_div_int x keys_per_sec)))
                    else Inr None) of
                Inl e \<Rightarrow> Inl e
              | Inr secs \<Rightarrow>
                  Inr \<lparr>expected_attempts = Some (py_int expected),
                       estimated_seconds_per_core = secs,
                       difficulty_description = describe_difficulty (num_value expected)\<rparr>))"

text \<open>
  The closed form of the specification, in exact arithmetic: \<open>16 ^ n\<close> divided by the
  number of start positions, truncated.
\<close>

definition contains_model :: "nat \<Rightarrow> int" where
  "contains_model n = 16 ^ n div max 1 (32 - int n + 1)"

section \<open>worker.py\<close>

text \<open>
  The objects the workers share live in a store: the queues, the events and the
  counters, each addressed by a number. A counter is a \<open>multiprocessing.Value('Q')\<close>,
  an unsigned 64-bit integer; assigning to its value keeps the low 64 bits.
\<close>

definition counter_add :: "64 word \<Rightarrow> int \<Rightarrow> 64 word" where
  "counter_add c n = word_of_int (uint c + n)"

text \<open>
  A worker process: its arguments, its local variables and its program point. The
  program points are the statements of \<open>search_worker\<close> between which other processes
  can run. \<open>put_buffer\<close> is the buffer of the process's end of the result queue:
  \<open>multiprocessing.Queue.put\<close> appends the item to this buffer and returns, and a feeder
  thread of the process writes the buffered items to the pipe, where the consumer finds
  them.
\<close>

datatype pc =
    AtCompile
  | AtWhile
  | AtFor nat
  | AtPut
  | AtSet
  | AtMatchAdd
  | AtBatchAdd
  | AtExitAdd
  | Returned
  | Finished
  | Crashed error

record 'rx worker =
  w_name_hash :: bytes
  w_pattern :: MatchPattern
  w_result_queue :: nat
  w_stop_event :: nat
  w_counter :: nat
  batch_size :: int
  compiled :: "'rx CompiledPattern option"
  local_count :: int
  cand :: "candidate option"
  put_buffer :: "candidate list"
  wpc :: pc
  terminated :: bool

record store =
  queues :: "nat \<Rightarrow> candidate list"
  events :: "nat \<Rightarrow> bool"
  counters :: "nat \<Rightarrow> 64 word"

definition exited :: "pc \<Rightarrow> bool" where
  "exited p = (case p of Returned \<Rightarrow> True | Finished \<Rightarrow> True | Crashed e \<Rightarrow> True | _ \<Rightarrow> False)"

text \<open>
  A process whose function has returned or raised exits once its feeder thread has
  written out the buffer; a terminated process is dead at once, with what it had
  buffered.
\<close>

definition is_alive :: "'rx worker \<Rightarrow> bool" where
  "is_alive w = (\<not> terminated w \<and> \<not> (exited (wpc w) \<and> put_buffer w = []))"

definition flush_count :: "'rx worker \<Rightarrow> store \<Rightarrow> store" where
  "flush_count w h =
     h\<lparr>counters := (counters h)(w_counter w := counter_add (counters h (w_counter w)) (local_count w))\<rparr>"

text \<open>
  One step of \<open>search_worker\<close>. \<open>keys\<close> is the key material that
  \<open>generate_and_hash\<close> draws when the step is an iteration of the batch loop.
\<close>

definition search_worker_step ::
  "(string \<Rightarrow> re_flags \<Rightarrow> 'rx option) \<Rightarrow> ('rx \<Rightarrow> string \<Rightarrow> bool) \<Rightarrow> keypairs
     \<Rightarrow> store \<Rightarrow> 'rx worker \<Rightarrow> store \<times> 'rx worker" where
  "search_worker_step re_compile re_search keys h w =
     (case wpc w of
        AtCompile \<Rightarrow>
          (case compile re_compile (w_pattern w) of
             Inl e \<Rightarrow> (h, w\<lparr>wpc := Crashed e\<rparr>)
           | Inr cp \<Rightarrow> (h, w\<lparr>compiled := Some cp, local_count := 0, wpc := AtWhile\<rparr>))
      | AtWhile \<Rightarrow>
          (if events h (w_stop_event w) then (h, w\<lparr>wpc := AtExitAdd\<rparr>)
           else (h, w\<lparr>wpc := AtFor 0\<rparr>))
      | AtFor i \<Rightarrow>
          (if int i < batch_size w then
             (let g = generate_and_hash (w_name_hash w) keys;
                  w1 = w\<lparr>cand := Some g, local_count := local_count w + 1\<rparr>
              in case compiled w of
                   None \<Rightarrow> (h, w1\<lparr>wpc := Crashed AttributeError\<rparr>)
                 | Some cp \<Rightarrow>
                     (case matches re_search cp (snd (snd g)) of
                        Inl e \<Rightarrow> (h, w1\<lparr>wpc := Crashed e\<rparr>)
                      | Inr True \<Rightarrow> (h, w1\<lparr>wpc := AtPut\<rparr>)
                      | Inr False \<Rightarrow> (h, w1\<lparr>wpc := AtFor (Suc i)\<rparr>)))
           else (h, w\<lparr>wpc := AtBatchAdd\<rparr>))
      | AtPut \<Rightarrow>
          (case cand w of
             None \<Rightarrow> (h, w\<lparr>wpc := Crashed AttributeError\<rparr>)
           | Some g \<Rightarrow> (h, w\<lparr>put_buffer := put_buffer w @ [g], wpc := AtSet\<rparr>))
      | AtSet \<Rightarrow> (h\<lparr>events := (events h)(w_stop_event w := True)\<rparr>, w\<lparr>wpc := AtMatchAdd\<rparr>)
      | AtMatchAdd \<Rightarrow> (flush_count w h, w\<lparr>wpc := Returned\<rparr>)
      | AtBatchAdd \<Rightarrow> (flush_count w h, w\<lparr>local_count := 0, wpc := AtWhile\<rparr>)
      | AtExitAdd \<Rightarrow>
          (if local_count w > 0 then (flush_count w h, w\<lparr>wpc := Finished\<rparr>)
           else (h, w\<lparr>wpc := Finished\<rparr>))
      | Returned \<Rightarrow> (h, w)
      | Finished \<Rightarrow> (h, w)
      | Crashed e \<Rightarrow> (h, w))"

text \<open>
  One step of the feeder thread of a worker's queue: the oldest buffered item is written
  to the pipe, that is, appended to the items that the consumer can take.
\<close>

definition feeder_step :: "store \<Rightarrow> 'rx worker \<Rightarrow> store \<times> 'rx worker" where
  "feeder_step h w =
     (case put_buffer w of
        [] \<Rightarrow> (h, w)
      | g # rest \<Rightarrow>
          (h\<lparr>queues := (queues h)(w_result_queue w := queues h (w_result_queue w) @ [g])\<rparr>,
           w\<lparr>put_buffer := rest\<rparr>))"

text \<open>What a process does in one step: a step of \<open>search_worker\<close> or of the feeder thread.\<close>

datatype action = Main keypairs | Feeder

fun act_step ::
  "(string \<Rightarrow> re_flags \<Rightarrow> 'rx option) \<Rightarrow> ('rx \<Rightarrow> string \<Rightarrow> bool) \<Rightarrow> action
     \<Rightarrow> store \<Rightarrow> 'rx worker \<Rightarrow> store \<times> 'rx worker" where
  "act_step re_compile re_search (Main keys) h w = search_worker_step re_compile re_search keys h w"
| "act_step re_compile re_search Feeder h w = feeder_step h w"

section \<open>generator.py\<close>

text \<open>
  Wall-clock statistics are floating-point numbers. Their type \<open>'f\<close> and the
  operations on them are parameters: \<open>fsub\<close> is float subtraction, \<open>fdiv\<close> divides an
  integer by a float, \<open>fpos x\<close> is \<open>x > 0\<close> and \<open>fzero\<close> is the number 0. The readings of
  \<open>time.time()\<close> during one call are the sequence \<open>clock 0, clock 1, \<dots>\<close>.
\<close>

record 'f float_ops =
  fsub :: "'f \<Rightarrow> 'f \<Rightarrow> 'f"
  fdiv :: "int \<Rightarrow> 'f \<Rightarrow> 'f"
  fpos :: "'f \<Rightarrow> bool"
  fzero :: 'f

record 'f GeneratorResult =
  private_key :: bytes
  identity_hash :: bytes
  dest_hash_hex :: string
  res_dest_type :: string
  elapsed :: 'f
  total_checked :: int
  rate :: 'f


text \<open>
  The orchestrator with the world it acts on: its own attributes, the table of the
  processes it has spawned (\<open>workers\<close> holds their identifiers) and the store of the
  shared objects (\<open>result_queue\<close>, \<open>stop_event\<close> and \<open>counter\<close> hold addresses, \<open>None\<close>
  before the first start).
\<close>

record ('rx, 'f) VanityGenerator =
  pattern_str :: string
  match_pattern :: MatchPattern
  name_hash :: bytes
  dest_type :: string
  num_workers :: int
  workers :: "nat list"
  result_queue :: "nat option"
  stop_event :: "nat option"
  counter :: "nat option"
  start_time :: 'f
  results :: "'f GeneratorResult list"
  is_running :: bool
  procs :: "nat \<Rightarrow> 'rx worker"
  next_pid :: nat
  heap :: store
  next_addr :: nat

text \<open>\<open>s.split(d)\<close> for a one-character separator \<open>d\<close>.\<close>

fun split_acc :: "char \<Rightarrow> string \<Rightarrow> string \<Rightarrow> string list" where
  "split_acc d acc [] = [rev acc]"
| "split_acc d acc (c # cs) =
     (if c = d then rev acc # split_acc d [] cs else split_acc d (c # acc) cs)"

definition split :: "string \<Rightarrow> char \<Rightarrow> string list" where
  "split s d = split_acc d [] s"

definition blank_worker :: "'rx worker" where
  "blank_worker =
     \<lparr>w_name_hash = [], w_pattern = \<lparr>mode = PREFIX, pattern = [], case_sensitive = False\<rparr>,
      w_result_queue = 0, w_stop_event = 0, w_counter = 0, batch_size = 500, compiled = None,
      local_count = 0, cand = None, put_buffer = [], wpc = Finished, terminated = True\<rparr>"

definition empty_store :: store where
  "empty_store = \<lparr>queues = (\<lambda>a. []), events = (\<lambda>a. False), counters = (\<lambda>a. 0)\<rparr>"

text \<open>
  \<open>VanityGenerator.__init__\<close>. \<open>cpu_count\<close> is the value of \<open>os.cpu_count()\<close>;
  \<open>fl\<close> gives the number 0 that \<open>_start_time\<close> starts with.
\<close>

definition VanityGenerator_init ::
  "'f float_ops \<Rightarrow> int option \<Rightarrow> string \<Rightarrow> MatchMode \<Rightarrow> string \<Rightarrow> int \<Rightarrow> bool
     \<Rightarrow> error + ('rx, 'f) VanityGenerator" where
  "VanityGenerator_init fl cpu_count pat md dest num cs =
     (case (if md = PREFIX \<or> md = SUFFIX \<or> md = CONTAINS then validate_hex_pattern pat
            else Inr pat) of
        Inl e \<Rightarrow> Inl e
      | Inr ps \<Rightarrow>
          (case (case DEST_NAME_HASHES dest of
                   Some nh \<Rightarrow> Inr nh
                 | None \<Rightarrow>
                     (if length (split dest CHR ''.'') < 2 then Inl (ValueError InvalidDestType)
                      else Inr (compute_name_hash dest))) of
             Inl e \<Rightarrow> Inl e
           | Inr nh \<Rightarrow>
               Inr \<lparr>pattern_str = ps,
                    match_pattern = \<lparr>mode = md, pattern = ps, case_sensitive = cs\<rparr>,
                    name_hash = nh,
                    dest_type = dest,
                    num_workers =
                      (if num > 0 then num
                       else max 1 ((case cpu_count of None \<Rightarrow> 2
                                    | Some n \<Rightarrow> if n = 0 then 2 else n) - 1)),
                    workers = [],
                    result_queue = None,
                    stop_event = None,
                    counter = None,
                    start_time = fzero fl,
                    results = [],
                    is_running = False,
                    procs = (\<lambda>p. blank_worker),
                    next_pid = 0,
                    heap = empty_store,
                    next_addr = 0\<rparr>))"

text \<open>
  \<open>Process(target=search_worker, args=...)\<close>, \<open>p.start()\<close> and
  \<open>self._workers.append(p)\<close>, for each of the \<open>num_workers\<close> workers. A started
  process stands before the first statement of \<open>search_worker\<close>, with the default batch
  size.
\<close>

definition new_worker :: "('rx, 'f) VanityGenerator \<Rightarrow> 'rx worker" where
  "new_worker s =
     \<lparr>w_name_hash = name_hash s, w_pattern = match_pattern s,
      w_result_queue = (case result_queue s of Some a \<Rightarrow> a | None \<Rightarrow> 0),
      w_stop_event = (case stop_event s of Some a \<Rightarrow> a | None \<Rightarrow> 0),
      w_counter = (case counter s of Some a \<Rightarrow> a | None \<Rightarrow> 0),
      batch_size = 500, compiled = None, local_count = 0, cand = None, put_buffer = [],
      wpc = AtCompile, terminated = False\<rparr>"

fun spawn :: "nat \<Rightarrow> ('rx, 'f) VanityGenerator \<Rightarrow> ('rx, 'f) VanityGenerator" where
  "spawn 0 s = s"
| "spawn (Suc n) s =
     spawn n (s\<lparr>procs := (procs s)(next_pid s := new_worker s),
               workers := workers s @ [next_pid s],
               next_pid := Suc (next_pid s)\<rparr>)"

text \<open>
  \<open>start\<close>. The result pairs the exception raised, if any, with the state after the
  call. The new queue, event and counter are fresh objects at the address \<open>next_addr\<close>.
\<close>

definition start ::
  "(nat \<Rightarrow> 'f) \<Rightarrow> ('rx, 'f) VanityGenerator \<Rightarrow> error option \<times> ('rx, 'f) VanityGenerator" where
  "start clock s =
     (if is_running s then (Some RuntimeError, s)
      else
        (let a = next_addr s;
             h = heap s;
             s1 = s\<lparr>heap := h\<lparr>queues := (queues h)(a := []),
                                events := (events h)(a := False),
                                counters := (counters h)(a := 0)\<rparr>,
                    next_addr := Suc a,
                    result_queue := Some a,
                    stop_event := Some a,
                    counter := Some a,
                    start_time := clock 0,
                    results := [],
                    is_running := True\<rparr>
         in (None, spawn (nat (num_workers s1)) s1)))"

text \<open>The \<open>GeneratorResult\<close> built from a queue item, the clock reading and the counter value.\<close>

definition make_result ::
  "'f float_ops \<Rightarrow> 'f \<Rightarrow> ('rx, 'f) VanityGenerator \<Rightarrow> int \<Rightarrow> candidate \<Rightarrow> 'f GeneratorResult" where
  "make_result fl now s tot g =
     (let el = fsub fl now (start_time s)
      in \<lparr>private_key = fst g,
          identity_hash = fst (snd g),
          dest_hash_hex = snd (snd g),
          res_dest_type = dest_type s,
          elapsed = el,
          total_checked = tot,
          rate = (if fpos fl el then fdiv fl tot el else fzero fl)\<rparr>)"

text \<open>
  The drain loop, \<open>while not queue.empty(): ... queue.get_nowait() ...\<close>, run on the
  items of the queue: the \<open>k\<close>-th item taken is stamped with the \<open>k\<close>-th clock reading
  and appended to the results. The loop leaves the queue empty.
\<close>

fun drain ::
  "'f float_ops \<Rightarrow> (nat \<Rightarrow> 'f) \<Rightarrow> ('rx, 'f) VanityGenerator \<Rightarrow> int \<Rightarrow> nat \<Rightarrow> candidate list
     \<Rightarrow> 'f GeneratorResult list \<Rightarrow> 'f GeneratorResult list" where
  "drain fl clock s tot k [] rs = rs"
| "drain fl clock s tot k (g # q) rs =
     drain fl clock s tot (Suc k) q (rs @ [make_result fl (clock k) s tot g])"

definition set_queue :: "nat \<Rightarrow> candidate list \<Rightarrow> store \<Rightarrow> store" where
  "set_queue a q h = h\<lparr>queues := (queues h)(a := q)\<rparr>"



text \<open>One step of the process \<open>pid\<close>, if it has been spawned and is alive.\<close>

definition proc_step ::
  "(string \<Rightarrow> re_flags \<Rightarrow> 'rx option) \<Rightarrow> ('rx \<Rightarrow> string \<Rightarrow> bool) \<Rightarrow> nat \<times> action
     \<Rightarrow> ('rx, 'f) VanityGenerator \<Rightarrow> ('rx, 'f) VanityGenerator" where
  "proc_step re_compile re_search pa s =
     (let w = procs s (fst pa)
      in if fst pa < next_pid s \<and> is_alive w then
           (let hw = act_step re_compile re_search (snd pa) (heap s) w
            in s\<lparr>heap := fst hw, procs := (procs s)(fst pa := snd hw)\<rparr>)
         else s)"

definition run_procs ::
  "(string \<Rightarrow> re_flags \<Rightarrow> 'rx option) \<Rightarrow> ('rx \<Rightarrow> string \<Rightarrow> bool) \<Rightarrow> (nat \<times> action) list
     \<Rightarrow> ('rx, 'f) VanityGenerator \<Rightarrow> ('rx, 'f) VanityGenerator" where
  "run_procs re_compile re_search sched s = foldl (\<lambda>t pa. proc_step re_compile re_search pa t) s sched"

text \<open>
  The loop \<open>w.join(timeout=2.0); if w.is_alive(): w.terminate()\<close> over the workers.
  While the orchestrator waits for a worker the processes run on: \<open>segs\<close> gives, for each
  wait in turn, the steps taken during it. A worker still alive after its wait is
  terminated.
\<close>

fun join_all ::
  "(string \<Rightarrow> re_flags \<Rightarrow> 'rx option) \<Rightarrow> ('rx \<Rightarrow> string \<Rightarrow> bool) \<Rightarrow> (nat \<times> action) list list
     \<Rightarrow> nat list \<Rightarrow> ('rx, 'f) VanityGenerator \<Rightarrow> ('rx, 'f) VanityGenerator" where
  "join_all re_compile re_search segs [] s = s"
| "join_all re_compile re_search segs (p # ps) s =
     (let s1 = run_procs re_compile re_search (case segs of [] \<Rightarrow> [] | sg # _ \<Rightarrow> sg) s;
          s2 = (if is_alive (procs s1 p)
                then s1\<lparr>procs := (procs s1)(p := (procs s1 p)\<lparr>terminated := True\<rparr>)\<rparr>
                else s1)
      in join_all re_compile re_search (tl segs) ps s2)"

text \<open>\<open>stop\<close>: the results returned and the state after the call.\<close>

definition stop ::
  "'f float_ops \<Rightarrow> (string \<Rightarrow> re_flags \<Rightarrow> 'rx option) \<Rightarrow> ('rx \<Rightarrow> string \<Rightarrow> bool)
     \<Rightarrow> (nat \<times> action) list list \<Rightarrow> (nat \<Rightarrow> 'f) \<Rightarrow> ('rx, 'f) VanityGenerator
     \<Rightarrow> 'f GeneratorResult list \<times> ('rx, 'f) VanityGenerator" where
  "stop fl re_compile re_search segs clock s =
     (let s1 = (case stop_event s of
                  None \<Rightarrow> s
                | Some e \<Rightarrow> s\<lparr>heap := (heap s)\<lparr>events := (events (heap s))(e := True)\<rparr>\<rparr>);
          s2 = join_all re_compile re_search segs (workers s1) s1;
          s3 = (case result_queue s2 of
                  None \<Rightarrow> s2
                | Some q \<Rightarrow>
                    (let tot = (case counter s2 of None \<Rightarrow> 0
                                  | Some c \<Rightarrow> uint (counters (heap s2) c))
                     in s2\<lparr>heap := set_queue q [] (heap s2),
                           results := drain fl clock s2 tot 0 (queues (heap s2) q) (results s2)\<rparr>));
          s4 = s3\<lparr>workers := [], is_running := False\<rparr>
      in (results s4, s4))"




section \<open>The result of a match and the cancellation signal\<close>

text \<open>
  The triple that a result was built from, and the triples of the results collected so
  far.
\<close>

definition triple :: "'f GeneratorResult \<Rightarrow> candidate" where
  "triple r = (private_key r, identity_hash r, dest_hash_hex r)"

definition collected :: "('rx, 'f) VanityGenerator \<Rightarrow> candidate set" where
  "collected s = triple ` set (results s)"

text \<open>
  A worker that has found a match has called \<open>result_queue.put\<close> once it stands at
  or after \<open>stop_event.set()\<close>, and has set the signal once it stands after it.
\<close>

definition has_put :: "'rx worker \<Rightarrow> bool" where
  "has_put w = (wpc w = AtSet \<or> wpc w = AtMatchAdd \<or> wpc w = Returned)"

definition has_signalled :: "'rx worker \<Rightarrow> bool" where
  "has_signalled w = (wpc w = AtMatchAdd \<or> wpc w = Returned)"

text \<open>
  \<open>published\<close>: a worker that has put holds a result that is in its buffer, in the
  pipe of its queue or among the collected results, and a worker that has signalled
  finds its event set.
  \<open>match_published\<close> says so of every worker of the current run, the workers whose
  queue is the orchestrator's current one.
\<close>

definition published ::
  "(nat \<Rightarrow> candidate list) \<Rightarrow> (nat \<Rightarrow> bool) \<Rightarrow> candidate set \<Rightarrow> 'rx worker \<Rightarrow> bool" where
  "published qs evs C w =
     ((has_put w \<longrightarrow>
         (\<exists>g. cand w = Some g
            \<and> (g \<in> set (put_buffer w) \<or> g \<in> set (qs (w_result_queue w)) \<or> g \<in> C)))
      \<and> (has_signalled w \<longrightarrow> evs (w_stop_event w)))"

definition match_published :: "('rx, 'f) VanityGenerator \<Rightarrow> bool" where
  "match_published s =
     (\<forall>p<next_pid s. result_queue s = Some (w_result_queue (procs s p))
        \<longrightarrow> published (queues (heap s)) (events (heap s)) (collected s) (procs s p))"

definition well_formed :: "('rx, 'f) VanityGenerator \<Rightarrow> bool" where
  "well_formed s =
     ((\<forall>p<next_pid s. w_result_queue (procs s p) < next_addr s)
      \<and> (result_queue s \<noteq> None \<longrightarrow> counter s \<noteq> None))"

definition inv :: "('rx, 'f) VanityGenerator \<Rightarrow> bool" where
  "inv s = (well_formed s \<and> match_published s)"

section \<open>Example values\<close>

text \<open>
  An instance of the float operations, exact on the rationals, and the generators that
  \<open>VanityGenerator(pattern="dead", mode=MatchMode.PREFIX, num_workers=1)\<close> and
  \<open>VanityGenerator(pattern=".", mode=MatchMode.REGEX, num_workers=1)\<close> construct (on a
  machine where \<open>os.cpu_count()\<close> is \<open>None\<close>). They serve to evaluate the definitions on
  concrete inputs.
\<close>

definition exact_ops :: "rat float_ops" where
  "exact_ops = \<lparr>fsub = (\<lambda>x y. x - y), fdiv = (\<lambda>n x. of_int n / x), fpos = (\<lambda>x. 0 < x), fzero = 0\<rparr>"

definition example_generator :: "(unit, rat) VanityGenerator" where
  "example_generator =
     \<lparr>pattern_str = ''dead'',
      match_pattern = \<lparr>mode = PREFIX, pattern = ''dead'', case_sensitive = False\<rparr>,
      name_hash = LXMF_NAME_HASH,
      dest_type = ''lxmf.delivery'',
      num_workers = 1,
      workers = [],
      result_queue = None,
      stop_event = None,
      counter = None,
      start_time = 0,
      results = [],
      is_running = False,
      procs = (\<lambda>p. blank_worker),
      next_pid = 0,
      heap = empty_store,
      next_addr = 0\<rparr>"


section \<open>Properties of the string operations\<close>

lemma startswith_prefix: "startswith s p = prefix p s"
  by (auto simp: startswith_def prefix_def min_def take_is_prefix prefix_length_le
      intro: prefixI dest: prefix_length_le) (metis append_take_drop_id)

lemma endswith_suffix: "endswith s p = suffix p s"
  by (auto simp: endswith_def suffix_def) (metis append_take_drop_id)

lemma str_contains_sublist: "str_contains p s = sublist p s"
  by (induction s) (auto simp: startswith_prefix sublist_Cons_right)

lemma of_char_lower_char:
  "(of_char (lower_char c) :: nat) =
     (let n = (of_char c :: nat)
      in if (65 \<le> n \<and> n \<le> 90) \<or> (192 \<le> n \<and> n \<le> 222 \<and> n \<noteq> 215) then n + 32 else n)"
  by (auto simp: lower_char_def Let_def)

lemma isspace_lower_char: "isspace (lower_char c) = isspace c"
  unfolding isspace_def of_char_lower_char by (auto simp: Let_def)

lemma hexdigits_iff:
  "c \<in> set hexdigits \<longleftrightarrow>
     (let n = (of_char c :: nat) in (48 \<le> n \<and> n \<le> 57) \<or> (97 \<le> n \<and> n \<le> 102))"
proof -
  have "c \<in> set hexdigits \<longleftrightarrow> (of_char c :: nat) \<in> of_char ` set hexdigits"
    by (auto simp: image_iff)
  also have "\<dots> \<longleftrightarrow>
      (let n = (of_char c :: nat) in (48 \<le> n \<and> n \<le> 57) \<or> (97 \<le> n \<and> n \<le> 102))"
    by (simp add: hexdigits_def Let_def) arith
  finally show ?thesis .
qed

lemma hex_ci_iff:
  "hex_ci c \<longleftrightarrow>
     (let n = (of_char c :: nat)
      in (48 \<le> n \<and> n \<le> 57) \<or> (97 \<le> n \<and> n \<le> 102) \<or> (65 \<le> n \<and> n \<le> 70))"
proof -
  have "hex_ci c \<longleftrightarrow> (of_char c :: nat) \<in> of_char ` set hexdigits_ci"
    by (auto simp: image_iff hex_ci_def)
  also have "\<dots> \<longleftrightarrow>
      (let n = (of_char c :: nat)
       in (48 \<le> n \<and> n \<le> 57) \<or> (97 \<le> n \<and> n \<le> 102) \<or> (65 \<le> n \<and> n \<le> 70))"
    by (simp add: hexdigits_ci_def Let_def) arith
  finally show ?thesis .
qed

lemma lower_char_hex: "lower_char c \<in> set hexdigits \<longleftrightarrow> hex_ci c"
  unfolding hexdigits_iff hex_ci_iff of_char_lower_char by (auto simp: Let_def)

lemma hex_not_space: "hex_ci c \<Longrightarrow> \<not> isspace c"
  unfolding hex_ci_iff isspace_def by (auto simp: Let_def)

lemma strip_lower: "strip (lower s) = lower (strip s)"
  by (simp add: strip_def lstrip_def rstrip_def lower_def dropWhile_map rev_map comp_def
      isspace_lower_char)

lemma list_all_lower_hex:
  "list_all (\<lambda>c. c \<in> set hexdigits) (lower s) = (\<forall>c\<in>set s. hex_ci c)"
  by (simp add: lower_def list_all_iff lower_char_hex)

lemma strip_no_space: "\<forall>c\<in>set s. \<not> isspace c \<Longrightarrow> strip s = s"
proof -
  assume h: "\<forall>c\<in>set s. \<not> isspace c"
  have l: "lstrip s = s"
    using h by (cases s) (auto simp: lstrip_def)
  have "dropWhile isspace (rev s) = rev s"
    using h by (cases "rev s") (auto simp: in_set_conv_decomp)
  then show ?thesis by (simp add: strip_def rstrip_def l)
qed

lemma strip_all_space: "\<forall>c\<in>set s. isspace c \<Longrightarrow> strip s = []"
proof -
  assume "\<forall>c\<in>set s. isspace c"
  then have "lstrip s = []" by (simp add: lstrip_def)
  then show ?thesis by (simp add: strip_def rstrip_def)
qed

section \<open>The matcher\<close>

text \<open>
  C1. Compiling a match specification and applying the compiled matcher to a string gives
  the semantic predicate of the specification: starts-with in prefix mode, ends-with in
  suffix mode, substring in contains mode, and in regex mode the unanchored search of the
  pattern compiled with IGNORECASE unless case sensitivity was requested (a pattern the
  regular-expression library refuses fails in both). This holds for every string, the
  32-character hex strings among them.
\<close>

theorem compile_matches_semantic_predicate:
  "(case compile rc spec of Inl e \<Rightarrow> Inl e | Inr cp \<Rightarrow> matches rs cp x)
     = semantic_predicate rc rs spec x"
  by (cases "mode spec")
     (auto simp: compile_def semantic_predicate_def startswith_prefix endswith_suffix
        str_contains_sublist split: sum.splits option.splits)

section \<open>Pattern validation\<close>

lemma validate_hex_pattern_strip:
  "validate_hex_pattern s =
     (if strip s = [] then Inl (ValueError EmptyPattern)
      else if \<not> (\<forall>c\<in>set (strip s). hex_ci c) then Inl (ValueError NonHexPattern)
      else if length (strip s) > 32 then Inl (ValueError PatternTooLong)
      else Inr (lower (strip s)))"
  by (simp add: validate_hex_pattern_def strip_lower list_all_lower_hex Let_def)
     (simp add: lower_def)

text \<open>
  C2, as stated, fails: the input \<open>'' ab''\<close> contains a space, a character outside
  0-9a-f, and is accepted, because surrounding whitespace is stripped before the checks.
\<close>

theorem validate_hex_pattern_space_counterexample:
  "CHR '' '' \<in> set '' ab'' \<and> \<not> hex_ci CHR '' '' \<and> validate_hex_pattern '' ab'' = Inr ''ab''"
  by (simp add: validate_hex_pattern_def strip_def lstrip_def rstrip_def lower_def
      lower_char_def isspace_def hexdigits_def hex_ci_def hexdigits_ci_def)

text \<open>
  C2, amended. For every non-empty string \<open>s\<close> of hex digits (case-insensitive) of length
  at most 32, validation returns the lowercase form of \<open>s\<close>; and for every input whose
  form after stripping leading and trailing whitespace is empty, contains a character
  outside 0-9a-f (case-insensitive), or is longer than 32, validation raises a
  \<open>ValueError\<close>.
\<close>

theorem validate_hex_pattern_accepts_and_rejects:
  "(s \<noteq> [] \<and> (\<forall>c\<in>set s. hex_ci c) \<and> length s \<le> 32
      \<longrightarrow> validate_hex_pattern s = Inr (lower s))
   \<and> (strip s = [] \<or> (\<exists>c\<in>set (strip s). \<not> hex_ci c) \<or> length (strip s) > 32
      \<longrightarrow> (\<exists>r. validate_hex_pattern s = Inl (ValueError r)))"
proof (intro conjI impI)
  assume h: "s \<noteq> [] \<and> (\<forall>c\<in>set s. hex_ci c) \<and> length s \<le> 32"
  then have "strip s = s" by (intro strip_no_space) (auto dest: hex_not_space)
  with h show "validate_hex_pattern s = Inr (lower s)"
    by (simp add: validate_hex_pattern_strip)
next
  assume "strip s = [] \<or> (\<exists>c\<in>set (strip s). \<not> hex_ci c) \<or> length (strip s) > 32"
  then show "\<exists>r. validate_hex_pattern s = Inl (ValueError r)"
    by (auto simp: validate_hex_pattern_strip)
qed

theorem validate_hex_pattern_accepts_and_rejects_witness:
  "validate_hex_pattern ''DeaD'' = Inr ''dead''
   \<and> (\<exists>r. validate_hex_pattern '' xyz'' = Inl (ValueError r))"
  using validate_hex_pattern_accepts_and_rejects [of "''DeaD''"]
    validate_hex_pattern_accepts_and_rejects [of "'' xyz''"]
  by (simp add: strip_def lstrip_def rstrip_def lower_def lower_char_def isspace_def
      hex_ci_def hexdigits_ci_def char_of_eq_iff)

text \<open>
  C9. Validation strips leading and trailing whitespace before it checks characters: an
  input whose stripped form is a non-empty hex string (case-insensitive) of length at
  most 32 is accepted and the lowercased stripped form is returned, and an input that
  consists of whitespace only is rejected as empty.
\<close>

theorem validate_hex_pattern_strips_whitespace:
  "(strip s \<noteq> [] \<and> (\<forall>c\<in>set (strip s). hex_ci c) \<and> length (strip s) \<le> 32
      \<longrightarrow> validate_hex_pattern s = Inr (lower (strip s)))
   \<and> ((\<forall>c\<in>set s. isspace c) \<longrightarrow> validate_hex_pattern s = Inl (ValueError EmptyPattern))"
  by (auto simp: validate_hex_pattern_strip strip_all_space)

theorem validate_hex_pattern_strips_whitespace_witness:
  "validate_hex_pattern ''  Be '' = Inr ''be''
   \<and> validate_hex_pattern ''   '' = Inl (ValueError EmptyPattern)"
  using validate_hex_pattern_strips_whitespace [of "''  Be ''"]
    validate_hex_pattern_strips_whitespace [of "''   ''"]
  by (simp add: strip_def lstrip_def rstrip_def lower_def lower_char_def isspace_def
      hex_ci_def hexdigits_ci_def char_of_eq_iff)

section \<open>Name hashes\<close>

lemma sha256_lxmf:
  "take 10 (sha256 (encode_utf8 ''lxmf.delivery''))
     = [0x6e, 0xc6, 0x0b, 0xc3, 0x18, 0xe2, 0xc0, 0xf0, 0xd9, 0x08]"
  by code_simp

lemma sha256_nomadnet:
  "take 10 (sha256 (encode_utf8 ''nomadnetwork.node''))
     = [0x21, 0x3e, 0x63, 0x11, 0xbc, 0xec, 0x54, 0xab, 0x4f, 0xde]"
  by code_simp

lemma bytes_hex_LXMF: "bytes_hex LXMF_NAME_HASH = ''6ec60bc318e2c0f0d908''"
  by (simp add: bytes_hex_def LXMF_NAME_HASH_def hex_digit_def hexdigits_def)

lemma bytes_hex_NOMADNET: "bytes_hex NOMADNET_NAME_HASH = ''213e6311bcec54ab4fde''"
  by (simp add: bytes_hex_def NOMADNET_NAME_HASH_def hex_digit_def hexdigits_def)

lemma compute_name_hash_lxmf: "compute_name_hash ''lxmf.delivery'' = LXMF_NAME_HASH"
  by (simp add: compute_name_hash_def NAME_HASH_LENGTH_def sha256_lxmf LXMF_NAME_HASH_def)

lemma compute_name_hash_nomadnet: "compute_name_hash ''nomadnetwork.node'' = NOMADNET_NAME_HASH"
  by (simp add: compute_name_hash_def NAME_HASH_LENGTH_def sha256_nomadnet NOMADNET_NAME_HASH_def)

section \<open>Properties of the float model\<close>

lemma float_limit_numeral [code]:
  "float_limit =
     179769313486231590772930519078902473361797697894230657273430081157732675805500963132708477322407536021120113879871393357658789768814416622492847430639474124377767893424865485276302219601246094119453082952085005768838150682342462881473913110540827237163350510684586298239947245938479716304835356329624224137216"
  by (simp add: float_limit_def)

lemma floor_log2_bounds:
  "1 \<le> n \<Longrightarrow> 2 ^ floor_log2 n \<le> n \<and> n < 2 ^ Suc (floor_log2 n)"
proof (induction n rule: floor_log2.induct)
  case (1 n)
  show ?case
  proof (cases "n < 2")
    case True
    with "1.prems" have "n = 1" by simp
    then show ?thesis by simp
  next
    case False
    then have "1 \<le> n div 2" by simp
    with "1.IH" False
    have ih: "2 ^ floor_log2 (n div 2) \<le> n div 2" "n div 2 < 2 ^ Suc (floor_log2 (n div 2))"
      by simp_all
    have s: "floor_log2 n = Suc (floor_log2 (n div 2))"
      using False by (subst floor_log2.simps) simp
    have "2 * 2 ^ floor_log2 (n div 2) \<le> n"
      using ih(1) by linarith
    moreover have "n < 2 * 2 ^ Suc (floor_log2 (n div 2))"
      using ih(2) by linarith
    ultimately show ?thesis by (simp add: s)
  qed
qed

lemma pow2_powi: "pow2 e = 2 powi e"
  by (simp add: pow2_def power_int_def field_simps)

lemma pow2_pos: "0 < pow2 e"
  by (simp add: pow2_powi)

lemma pow2_mono: "d \<le> e \<Longrightarrow> pow2 d \<le> pow2 e"
  by (simp add: pow2_powi power_int_increasing)

lemma exponent_of_le:
  assumes "0 < x"
  shows "pow2 (exponent_of x) \<le> x"
proof -
  obtain a b where q: "quotient_of x = (a, b)" by (cases "quotient_of x")
  then have b: "0 < b" and x: "x = of_int a / of_int b"
    by (simp_all add: quotient_of_denom_pos quotient_of_div)
  have a: "1 \<le> a"
    using assms b x by (simp add: zero_less_divide_iff)
  define d where "d = int (floor_log2 a) - int (floor_log2 b)"
  have e: "exponent_of x = (if pow2 d \<le> x then d else d - 1)"
    by (simp add: exponent_of_def q d_def Let_def)
  show ?thesis
  proof (cases "pow2 d \<le> x")
    case True
    then show ?thesis by (simp add: e)
  next
    case False
    have la: "(2::rat) ^ floor_log2 a \<le> of_int a"
    proof -
      have "(2::int) ^ floor_log2 a \<le> a" using floor_log2_bounds [OF a] by simp
      then have "(of_int (2 ^ floor_log2 a) :: rat) \<le> of_int a" by (simp only: of_int_le_iff)
      then show ?thesis by simp
    qed
    have ub: "(of_int b :: rat) < 2 ^ Suc (floor_log2 b)"
    proof -
      have "b < 2 ^ Suc (floor_log2 b)" using floor_log2_bounds [of b] b by simp
      then have "(of_int b :: rat) < of_int (2 ^ Suc (floor_log2 b))" by (simp only: of_int_less_iff)
      then show ?thesis by simp
    qed
    have "pow2 (d - 1) = 2 ^ floor_log2 a / 2 ^ Suc (floor_log2 b)"
      by (simp add: pow2_powi d_def power_int_diff power_int_minus field_simps
          flip: power_int_of_nat)
    also have "\<dots> \<le> of_int a / 2 ^ Suc (floor_log2 b)"
      using la by (simp add: divide_right_mono)
    also have "\<dots> \<le> of_int a / of_int b"
      using ub b a by (intro divide_left_mono) (simp_all add: less_imp_le)
    finally have "pow2 (d - 1) \<le> x" by (simp add: x)
    moreover have "exponent_of x = d - 1" using False by (simp add: e)
    ultimately show ?thesis by simp
  qed
qed

lemma round_half_even_le: "of_int (round_half_even x) \<le> x + 1 / 2"
proof -
  have f: "of_int \<lfloor>x\<rfloor> \<le> x" by simp
  show ?thesis
  proof (cases "x - of_int \<lfloor>x\<rfloor> < 1 / 2")
    case True
    then have "round_half_even x = \<lfloor>x\<rfloor>" by (simp add: round_half_even_def Let_def)
    then show ?thesis using f by linarith
  next
    case False
    then have g: "of_int \<lfloor>x\<rfloor> + 1 \<le> x + 1 / 2" by linarith
    have "round_half_even x = \<lfloor>x\<rfloor> \<or> round_half_even x = \<lfloor>x\<rfloor> + 1"
      by (simp add: round_half_even_def Let_def)
    then show ?thesis using f g by auto
  qed
qed

lemma round_half_even_nonneg: "0 \<le> x \<Longrightarrow> 0 \<le> round_half_even x"
  by (auto simp: round_half_even_def Let_def)

lemma binary64_bound:
  "\<bar>binary64 x\<bar> \<le> \<bar>x\<bar> + max \<bar>x\<bar> 1 / 2"
proof (cases "x = 0")
  case True
  then show ?thesis by (simp add: binary64_def)
next
  case False
  define a where "a = \<bar>x\<bar>"
  define p where "p = max (exponent_of a) (- 1022) - 52"
  define m where "m = round_half_even (a / pow2 p)"
  have a: "0 < a" using False by (simp add: a_def)
  have m0: "0 \<le> m"
    unfolding m_def using a pow2_pos [of p] by (intro round_half_even_nonneg) simp
  have b: "binary64 x = sgn x * of_int m * pow2 p"
    using False by (simp add: binary64_def Let_def a_def p_def m_def)
  have "\<bar>binary64 x\<bar> = of_int m * pow2 p"
    using False m0 pow2_pos [of p] by (simp add: b abs_mult abs_sgn_eq)
  also have "\<dots> \<le> (a / pow2 p + 1 / 2) * pow2 p"
    unfolding m_def using round_half_even_le [of "a / pow2 p"] pow2_pos [of p]
    by (intro mult_right_mono) simp_all
  also have "\<dots> = a + pow2 p / 2"
    using pow2_pos [of p] by (simp add: field_simps)
  also have "pow2 p \<le> max a 1"
  proof (cases "exponent_of a \<le> - 1022")
    case True
    then have "p = - 1074" by (simp add: p_def)
    then have "pow2 p \<le> 1" using pow2_mono [of p 0] by (simp add: pow2_def)
    then show ?thesis by simp
  next
    case False
    then have "p \<le> exponent_of a" by (simp add: p_def)
    then have "pow2 p \<le> a" using pow2_mono exponent_of_le [OF a] by (meson order_trans)
    then show ?thesis by simp
  qed
  finally show ?thesis by (simp add: a_def)
qed

lemma round_half_even_ge: "x - 1 / 2 \<le> of_int (round_half_even x)"
proof -
  have f: "x < of_int \<lfloor>x\<rfloor> + 1" by linarith
  show ?thesis
  proof (cases "x - of_int \<lfloor>x\<rfloor> < 1 / 2")
    case True
    then have "round_half_even x = \<lfloor>x\<rfloor>" by (simp add: round_half_even_def Let_def)
    then show ?thesis using True by linarith
  next
    case False
    show ?thesis
    proof (cases "1 / 2 < x - of_int \<lfloor>x\<rfloor>")
      case True
      then have "round_half_even x = \<lfloor>x\<rfloor> + 1" by (simp add: round_half_even_def Let_def)
      then show ?thesis using f by simp
    next
      case h: False
      with False have "x - of_int \<lfloor>x\<rfloor> = 1 / 2" by linarith
      moreover have "round_half_even x = \<lfloor>x\<rfloor> \<or> round_half_even x = \<lfloor>x\<rfloor> + 1"
        by (simp add: round_half_even_def Let_def)
      ultimately show ?thesis by auto
    qed
  qed
qed

lemma binary64_pos:
  assumes "0 < x"
  shows "x - max x 1 / 2 \<le> binary64 x" and "0 \<le> binary64 x"
proof -
  define p where "p = max (exponent_of x) (- 1022) - 52"
  define m where "m = round_half_even (x / pow2 p)"
  have m0: "0 \<le> m"
    unfolding m_def using assms pow2_pos [of p] by (intro round_half_even_nonneg) simp
  have b: "binary64 x = of_int m * pow2 p"
    using assms by (simp add: binary64_def Let_def p_def m_def)
  show "0 \<le> binary64 x"
    using m0 pow2_pos [of p] by (simp add: b)
  have le: "pow2 p \<le> max x 1"
  proof (cases "exponent_of x \<le> - 1022")
    case True
    then have "p = - 1074" by (simp add: p_def)
    then have "pow2 p \<le> 1" using pow2_mono [of p 0] by (simp add: pow2_def)
    then show ?thesis by simp
  next
    case False
    then have "p \<le> exponent_of x" by (simp add: p_def)
    then have "pow2 p \<le> x" using pow2_mono exponent_of_le [OF assms] by (meson order_trans)
    then show ?thesis by simp
  qed
  have "(x / pow2 p - 1 / 2) * pow2 p \<le> of_int m * pow2 p"
    unfolding m_def using round_half_even_ge [of "x / pow2 p"] pow2_pos [of p]
    by (intro mult_right_mono) simp_all
  moreover have "(x / pow2 p - 1 / 2) * pow2 p = x - pow2 p / 2"
    using pow2_pos [of p] by (simp add: field_simps)
  ultimately show "x - max x 1 / 2 \<le> binary64 x"
    using le by (simp add: b)
qed

lemma int_truediv_no_overflow:
  assumes "b \<noteq> 0" and "\<bar>of_int a / of_int b :: rat\<bar> \<le> 2 ^ 1023"
  shows "int_truediv a b = Inr (binary64 (of_int a / of_int b))"
proof -
  define q :: rat where "q = of_int a / of_int b"
  have "\<bar>binary64 q\<bar> \<le> \<bar>q\<bar> + max \<bar>q\<bar> 1 / 2" by (rule binary64_bound)
  also have "\<dots> \<le> 2 ^ 1023 + 2 ^ 1023 / 2" using assms(2) by (simp add: q_def max_def)
  also have "\<dots> < 2 ^ 1024" by simp
  finally show ?thesis
    using assms(1) by (simp add: int_truediv_def q_def Let_def float_limit_def)
qed

lemma int_truediv_overflow:
  assumes "b \<noteq> 0" and "(2 ^ 1025 :: rat) \<le> of_int a / of_int b"
  shows "int_truediv a b = Inl OverflowError"
proof -
  define q :: rat where "q = of_int a / of_int b"
  have q: "2 ^ 1025 \<le> q" using assms(2) by (simp add: q_def)
  then have "0 < q" by (rule less_le_trans [rotated]) simp
  then have "q - max q 1 / 2 \<le> binary64 q" by (rule binary64_pos)
  moreover have "max q 1 = q" using q by (simp add: max_def)
  ultimately have "q / 2 \<le> binary64 q" by simp
  then have "2 ^ 1024 \<le> binary64 q" using q by simp
  then have "float_limit \<le> \<bar>binary64 q\<bar>" by (simp add: float_limit_def)
  then show ?thesis
    using assms(1) by (simp add: int_truediv_def q_def Let_def)
qed

section \<open>The difficulty estimate\<close>

lemma pow16_bound: "n \<le> 255 \<Longrightarrow> (16::rat) ^ n \<le> 2 ^ 1020"
proof -
  assume "n \<le> 255"
  then have "(16::rat) ^ n \<le> 16 ^ 255" by (intro power_increasing) simp_all
  also have "(16::rat) ^ 255 = 2 ^ 1020"
  proof -
    have "(16::rat) = 2 ^ 4" by simp
    then have "(16::rat) ^ 255 = (2 ^ 4) ^ 255" by simp
    also have "\<dots> = 2 ^ (4 * 255)" by (rule power_mult [symmetric])
    finally show ?thesis by simp
  qed
  finally show ?thesis .
qed

lemma estimate_prefix:
  assumes "mode p = PREFIX \<or> mode p = SUFFIX" and "length (pattern p) \<le> 255"
  shows "map_sum id expected_attempts (estimate_difficulty p) = Inr (Some (16 ^ length (pattern p)))"
proof -
  define n where "n = length (pattern p)"
  have e: "expected_of p = Inr (Some (PyInt (16 ^ n)))"
    using assms(1) by (auto simp: expected_of_def n_def)
  have "\<bar>of_int (16 ^ n) / of_int 5000 :: rat\<bar> \<le> 16 ^ n"
    by (simp add: field_simps)
  also have "\<dots> \<le> 2 ^ 1020" using assms(2) unfolding n_def by (rule pow16_bound)
  also have "\<dots> \<le> (2::rat) ^ 1023" by simp
  finally have "int_truediv (16 ^ n) 5000 = Inr (binary64 (of_int (16 ^ n) / of_int 5000))"
    by (intro int_truediv_no_overflow) simp_all
  then show ?thesis
    by (simp add: estimate_difficulty_def e n_def [symmetric] Let_def)
qed

lemma estimate_contains:
  assumes "mode p = CONTAINS" and "length (pattern p) \<le> 255"
  shows "map_sum id expected_attempts (estimate_difficulty p)
     = Inr (Some \<lfloor>binary64 (16 ^ length (pattern p)
              / of_int (max 1 (32 - int (length (pattern p)) + 1)))\<rfloor>)"
proof -
  define n where "n = length (pattern p)"
  define k where "k = max 1 (33 - int n)"
  define q :: rat where "q = 16 ^ n / of_int k"
  have k: "1 \<le> k" by (simp add: k_def)
  then have k': "(1::rat) \<le> of_int k" by simp
  have q0: "0 < q" using k by (simp add: q_def)
  have "\<bar>q\<bar> \<le> 16 ^ n"
    using k' by (simp add: q_def field_simps mult_le_cancel_left1)
  also have "\<dots> \<le> 2 ^ 1020" using assms(2) unfolding n_def by (rule pow16_bound)
  also have "\<dots> \<le> (2::rat) ^ 1023" by simp
  finally have "\<bar>of_int (16 ^ n) / of_int k :: rat\<bar> \<le> 2 ^ 1023" by (simp add: q_def)
  then have t: "int_truediv (16 ^ n) k = Inr (binary64 q)"
    using k by (simp add: int_truediv_no_overflow q_def)
  have e: "expected_of p = Inr (Some (PyFloat (binary64 q)))"
    using assms(1) t by (simp add: expected_of_def n_def [symmetric] k_def [symmetric] Let_def)
  have "0 \<le> binary64 q" using q0 by (rule binary64_pos)
  then show ?thesis
    by (simp add: estimate_difficulty_def e Let_def n_def [symmetric] k_def [symmetric] q_def)
qed

lemma contains_exact_table:
  "list_all (\<lambda>n. \<lfloor>binary64 (16 ^ n / of_int (max 1 (32 - int n + 1)))\<rfloor> = contains_model n)
     [0..<15]"
  by code_simp

lemma contains_exact:
  "n \<le> 14 \<Longrightarrow> \<lfloor>binary64 (16 ^ n / of_int (max 1 (32 - int n + 1)))\<rfloor> = contains_model n"
proof -
  assume "n \<le> 14"
  then have "n \<in> set [0..<15]" by simp
  with contains_exact_table show ?thesis by (simp only: list_all_iff)
qed


lemma contains_15:
  "\<lfloor>binary64 (16 ^ 15 / of_int (max 1 (32 - int 15 + 1)))\<rfloor> = 64051194700380384"
  by code_simp

lemma estimate_prefix_overflow:
  assumes "mode p = PREFIX \<or> mode p = SUFFIX" and "260 \<le> length (pattern p)"
  shows "estimate_difficulty p = Inl OverflowError"
proof -
  define n where "n = length (pattern p)"
  have e: "expected_of p = Inr (Some (PyInt (16 ^ n)))"
    using assms(1) by (auto simp: expected_of_def n_def)
  have "(2::rat) ^ 1025 * 5000 \<le> 2 ^ 1025 * 2 ^ 15" by simp
  also have "\<dots> = 16 ^ 260"
  proof -
    have "(16::rat) ^ 260 = (2 ^ 4) ^ 260" by simp
    also have "\<dots> = 2 ^ (4 * 260)" by (rule power_mult [symmetric])
    finally show ?thesis by (simp flip: power_add)
  qed
  also have "\<dots> \<le> 16 ^ n"
    using assms(2) unfolding n_def by (intro power_increasing) simp_all
  finally have "(2::rat) ^ 1025 \<le> of_int (16 ^ n) / of_int 5000"
    by (simp add: field_simps)
  then have "int_truediv (16 ^ n) 5000 = Inl OverflowError"
    by (intro int_truediv_overflow) simp_all
  then show ?thesis
    by (simp add: estimate_difficulty_def e Let_def)
qed

text \<open>
  C4, as stated, fails. For a contains pattern of length 15 the estimate divides in
  floating point and reports 64051194700380384, where the truncated exact quotient
  \<open>16 ^ 15 div 18\<close> is 64051194700380387. For a prefix pattern of length 260 no
  estimate is reported: the division by the keys-per-second constant raises
  \<open>OverflowError\<close>.
\<close>

theorem estimate_difficulty_float_counterexample:
  "map_sum id expected_attempts
     (estimate_difficulty \<lparr>mode = CONTAINS, pattern = ''000000000000000'', case_sensitive = False\<rparr>)
     = Inr (Some 64051194700380384)
   \<and> contains_model 15 = 64051194700380387
   \<and> estimate_difficulty \<lparr>mode = PREFIX, pattern = replicate 260 CHR ''0'', case_sensitive = False\<rparr>
     = Inl OverflowError"
proof -
  have "map_sum id expected_attempts
     (estimate_difficulty \<lparr>mode = CONTAINS, pattern = ''000000000000000'', case_sensitive = False\<rparr>)
     = Inr (Some \<lfloor>binary64 (16 ^ 15 / of_int (max 1 (32 - int 15 + 1)))\<rfloor>)"
    using estimate_contains
      [of "\<lparr>mode = CONTAINS, pattern = ''000000000000000'', case_sensitive = False\<rparr>"]
    by simp
  moreover have "contains_model 15 = 64051194700380387"
    by (simp add: contains_model_def)
  moreover have "estimate_difficulty
      \<lparr>mode = PREFIX, pattern = replicate 260 CHR ''0'', case_sensitive = False\<rparr> = Inl OverflowError"
    by (rule estimate_prefix_overflow) simp_all
  ultimately show ?thesis
    by (simp only: contains_15)
qed

text \<open>
  C4, amended. For a prefix or suffix pattern of length \<open>n\<close> at most 255 the estimate
  reports \<open>16 ^ n\<close> expected attempts, 65536 for the prefix \<open>dead\<close>. For a contains pattern
  of length \<open>n\<close> at most 255 it reports the integer part of the float nearest to
  \<open>16 ^ n / max(1, 32 - n + 1)\<close>, which is the truncated exact quotient for \<open>n\<close> at most
  14, and 8 for the contains pattern \<open>be\<close>. For a regex pattern it reports the expected
  attempts as unknown.
\<close>

theorem estimate_difficulty_closed_form:
  "(length (pattern p) \<le> 255 \<and> (mode p = PREFIX \<or> mode p = SUFFIX)
      \<longrightarrow> map_sum id expected_attempts (estimate_difficulty p)
           = Inr (Some (16 ^ length (pattern p))))
   \<and> (length (pattern p) \<le> 255 \<and> mode p = CONTAINS
      \<longrightarrow> map_sum id expected_attempts (estimate_difficulty p)
           = Inr (Some \<lfloor>binary64 (16 ^ length (pattern p)
                   / of_int (max 1 (32 - int (length (pattern p)) + 1)))\<rfloor>))
   \<and> (length (pattern p) \<le> 14 \<and> mode p = CONTAINS
      \<longrightarrow> map_sum id expected_attempts (estimate_difficulty p)
           = Inr (Some (contains_model (length (pattern p)))))
   \<and> (mode p = REGEX \<longrightarrow> map_sum id expected_attempts (estimate_difficulty p) = Inr None)
   \<and> map_sum id expected_attempts
        (estimate_difficulty \<lparr>mode = PREFIX, pattern = ''dead'', case_sensitive = cs\<rparr>)
        = Inr (Some 65536)
   \<and> map_sum id expected_attempts
        (estimate_difficulty \<lparr>mode = CONTAINS, pattern = ''be'', case_sensitive = cs\<rparr>)
        = Inr (Some 8)"
proof -
  have c: "map_sum id expected_attempts (estimate_difficulty q)
      = Inr (Some (contains_model (length (pattern q))))"
    if "length (pattern q) \<le> 14 \<and> mode q = CONTAINS" for q
    using that estimate_contains [of q] contains_exact [of "length (pattern q)"] by simp
  have r: "map_sum id expected_attempts (estimate_difficulty p) = Inr None" if "mode p = REGEX"
    using that by (simp add: estimate_difficulty_def expected_of_def)
  have d: "map_sum id expected_attempts
        (estimate_difficulty \<lparr>mode = PREFIX, pattern = ''dead'', case_sensitive = cs\<rparr>)
        = Inr (Some 65536)"
    using estimate_prefix [of "\<lparr>mode = PREFIX, pattern = ''dead'', case_sensitive = cs\<rparr>"]
    by simp
  have b: "map_sum id expected_attempts
        (estimate_difficulty \<lparr>mode = CONTAINS, pattern = ''be'', case_sensitive = cs\<rparr>)
        = Inr (Some 8)"
    using c [of "\<lparr>mode = CONTAINS, pattern = ''be'', case_sensitive = cs\<rparr>"]
    by (simp add: contains_model_def)
  show ?thesis
    using estimate_prefix [of p] estimate_contains [of p] c [of p] r d b by blast
qed

theorem estimate_difficulty_closed_form_witness:
  "map_sum id expected_attempts
     (estimate_difficulty \<lparr>mode = SUFFIX, pattern = ''beef'', case_sensitive = False\<rparr>)
     = Inr (Some 65536)
   \<and> map_sum id expected_attempts
     (estimate_difficulty \<lparr>mode = CONTAINS, pattern = ''abc'', case_sensitive = False\<rparr>)
     = Inr (Some 136)
   \<and> map_sum id expected_attempts
     (estimate_difficulty \<lparr>mode = REGEX, pattern = ''^dead'', case_sensitive = False\<rparr>)
     = Inr None"
  using estimate_difficulty_closed_form [of "\<lparr>mode = SUFFIX, pattern = ''beef'', case_sensitive = False\<rparr>"]
    estimate_difficulty_closed_form [of "\<lparr>mode = CONTAINS, pattern = ''abc'', case_sensitive = False\<rparr>"]
    estimate_difficulty_closed_form [of "\<lparr>mode = REGEX, pattern = ''^dead'', case_sensitive = False\<rparr>"]
  by (auto simp: contains_model_def)

section \<open>The orchestrator and the workers\<close>

lemma search_worker_step_events:
  "events h e \<Longrightarrow> events (fst (search_worker_step rc rs keys h w)) e"
  by (cases "wpc w")
     (simp_all add: search_worker_step_def flush_count_def Let_def
        split: sum.split option.split bool.split)

lemma feeder_step_events:
  "events (fst (feeder_step h w)) = events h"
  by (simp add: feeder_step_def split: list.split)

lemma act_step_events:
  "events h e \<Longrightarrow> events (fst (act_step rc rs a h w)) e"
  by (cases a) (simp_all add: search_worker_step_events feeder_step_events)

lemma proc_step_fields [simp]:
  "workers (proc_step rc rs pk s) = workers s"
  "result_queue (proc_step rc rs pk s) = result_queue s"
  "stop_event (proc_step rc rs pk s) = stop_event s"
  "counter (proc_step rc rs pk s) = counter s"
  "start_time (proc_step rc rs pk s) = start_time s"
  "results (proc_step rc rs pk s) = results s"
  "is_running (proc_step rc rs pk s) = is_running s"
  "dest_type (proc_step rc rs pk s) = dest_type s"
  "next_pid (proc_step rc rs pk s) = next_pid s"
  "next_addr (proc_step rc rs pk s) = next_addr s"
  by (simp_all add: proc_step_def Let_def)

lemma proc_step_events:
  "events (heap s) e \<Longrightarrow> events (heap (proc_step rc rs pk s)) e"
  by (simp add: proc_step_def Let_def act_step_events)

lemma run_procs_fields [simp]:
  "workers (run_procs rc rs sched s) = workers s"
  "result_queue (run_procs rc rs sched s) = result_queue s"
  "stop_event (run_procs rc rs sched s) = stop_event s"
  "counter (run_procs rc rs sched s) = counter s"
  "start_time (run_procs rc rs sched s) = start_time s"
  "results (run_procs rc rs sched s) = results s"
  "is_running (run_procs rc rs sched s) = is_running s"
  "dest_type (run_procs rc rs sched s) = dest_type s"
  "next_pid (run_procs rc rs sched s) = next_pid s"
  "next_addr (run_procs rc rs sched s) = next_addr s"
  by (induction sched arbitrary: s; simp add: run_procs_def)+

lemma run_procs_events:
  "events (heap s) e \<Longrightarrow> events (heap (run_procs rc rs sched s)) e"
  by (induction sched arbitrary: s) (simp_all add: run_procs_def proc_step_events)

lemma join_all_fields [simp]:
  "result_queue (join_all rc rs segs ps s) = result_queue s"
  "stop_event (join_all rc rs segs ps s) = stop_event s"
  "counter (join_all rc rs segs ps s) = counter s"
  "start_time (join_all rc rs segs ps s) = start_time s"
  "results (join_all rc rs segs ps s) = results s"
  "is_running (join_all rc rs segs ps s) = is_running s"
  "dest_type (join_all rc rs segs ps s) = dest_type s"
  by (induction ps arbitrary: s segs; simp add: Let_def)+

lemma join_all_events:
  "events (heap s) e \<Longrightarrow> events (heap (join_all rc rs segs ps s)) e"
  by (induction ps arbitrary: s segs) (simp_all add: Let_def run_procs_events)

lemma spawn_fields [simp]:
  "is_running (spawn n s) = is_running s"
  "result_queue (spawn n s) = result_queue s"
  "stop_event (spawn n s) = stop_event s"
  "counter (spawn n s) = counter s"
  "results (spawn n s) = results s"
  "heap (spawn n s) = heap s"
  "next_addr (spawn n s) = next_addr s"
  "start_time (spawn n s) = start_time s"
  "dest_type (spawn n s) = dest_type s"
  by (induction n arbitrary: s; simp)+

lemma stop_snd_fields:
  "workers (snd (stop fl rc rs segs clock s)) = []"
  "is_running (snd (stop fl rc rs segs clock s)) = False"
  "stop_event (snd (stop fl rc rs segs clock s)) = stop_event s"
  "result_queue (snd (stop fl rc rs segs clock s)) = result_queue s"
  "fst (stop fl rc rs segs clock s) = results (snd (stop fl rc rs segs clock s))"
  by (cases "stop_event s"; cases "result_queue s"; simp add: stop_def Let_def)+

lemma stop_sets_event:
  "stop_event s = Some e \<Longrightarrow> events (heap (snd (stop fl rc rs segs clock s))) e"
  by (cases "result_queue s") (simp_all add: stop_def Let_def set_queue_def join_all_events)

lemma stop_empties_queue:
  "result_queue s = Some a \<Longrightarrow> queues (heap (snd (stop fl rc rs segs clock s))) a = []"
  by (cases "stop_event s") (simp_all add: stop_def Let_def set_queue_def)

lemma store_events_idem: "events h e \<Longrightarrow> h\<lparr>events := (events h)(e := True)\<rparr> = h"
  by (simp add: fun_upd_idem)

lemma store_queue_idem: "queues h a = [] \<Longrightarrow> set_queue a [] h = h"
  by (simp add: set_queue_def fun_upd_idem)

lemma stop_stopped:
  assumes "workers t = []" and "\<not> is_running t"
    and "\<And>e. stop_event t = Some e \<Longrightarrow> events (heap t) e"
    and "\<And>a. result_queue t = Some a \<Longrightarrow> queues (heap t) a = []"
  shows "stop fl rc rs segs clock t = (results t, t)"
proof -
  have s1: "(case stop_event t of None \<Rightarrow> t
            | Some e \<Rightarrow> t\<lparr>heap := (heap t)\<lparr>events := (events (heap t))(e := True)\<rparr>\<rparr>) = t"
    using assms(3) by (cases "stop_event t") (simp_all add: store_events_idem)
  have s3: "(case result_queue t of None \<Rightarrow> t
            | Some q \<Rightarrow>
               t\<lparr>heap := set_queue q [] (heap t),
                  results := drain fl clock t
                    (case counter t of None \<Rightarrow> 0 | Some c \<Rightarrow> uint (counters (heap t) c))
                    0 (queues (heap t) q) (results t)\<rparr>) = t"
    using assms(4) by (cases "result_queue t") (simp_all add: store_queue_idem Let_def)
  have s4: "t\<lparr>workers := [], is_running := False\<rparr> = t"
    using assms(1,2) by simp
  show ?thesis
    unfolding stop_def Let_def s1 assms(1) join_all.simps s3 s4 by (rule refl)
qed







lemma validate_dead: "validate_hex_pattern ''dead'' = Inr ''dead''"
  by (simp add: validate_hex_pattern_def strip_def lstrip_def rstrip_def lower_def
      lower_char_def isspace_def hexdigits_def)

lemma init_example:
  "VanityGenerator_init exact_ops None ''dead'' PREFIX ''lxmf.delivery'' 1 False
     = Inr example_generator"
  by (simp add: VanityGenerator_init_def validate_dead DEST_NAME_HASHES_def example_generator_def
      exact_ops_def)



lemma join_all_no_steps:
  "heap (join_all rc rs [] ps s) = heap s"
  by (induction ps arbitrary: s) (simp_all add: Let_def run_procs_def)

lemma stop_after_start:
  assumes "\<not> is_running s"
  shows "fst (stop fl rc rs [] clock (snd (start c0 s))) = []"
proof -
  define t where "t = snd (start c0 s)"
  have f: "stop_event t = Some (next_addr s)" "result_queue t = Some (next_addr s)"
    "results t = []" "queues (heap t) (next_addr s) = []"
    using assms by (simp_all add: t_def start_def Let_def)
  show ?thesis
    unfolding t_def [symmetric]
    by (simp add: stop_def Let_def f join_all_no_steps)
qed

section \<open>Claims about construction and the lifecycle\<close>

text \<open>
  C3. Namespace resolution maps \<open>lxmf.delivery\<close> to the name hash whose hex is
  \<open>6ec60bc318e2c0f0d908\<close> and \<open>nomadnetwork.node\<close> to the one whose hex is
  \<open>213e6311bcec54ab4fde\<close>, in the table and in every generator constructed for these
  namespaces, and the general derivation, SHA-256 of the UTF-8 namespace truncated to 10
  bytes, gives the same two constants.
\<close>

theorem well_known_name_hashes:
  "DEST_NAME_HASHES ''lxmf.delivery'' = Some LXMF_NAME_HASH
   \<and> bytes_hex LXMF_NAME_HASH = ''6ec60bc318e2c0f0d908''
   \<and> DEST_NAME_HASHES ''nomadnetwork.node'' = Some NOMADNET_NAME_HASH
   \<and> bytes_hex NOMADNET_NAME_HASH = ''213e6311bcec54ab4fde''
   \<and> compute_name_hash ''lxmf.delivery'' = LXMF_NAME_HASH
   \<and> compute_name_hash ''nomadnetwork.node'' = NOMADNET_NAME_HASH
   \<and> (\<forall>g :: ('rx, 'f) VanityGenerator.
          VanityGenerator_init fl cpu pat md ''lxmf.delivery'' num cs = Inr g
          \<longrightarrow> name_hash g = LXMF_NAME_HASH)
   \<and> (\<forall>g :: ('rx, 'f) VanityGenerator.
          VanityGenerator_init fl cpu pat md ''nomadnetwork.node'' num cs = Inr g
          \<longrightarrow> name_hash g = NOMADNET_NAME_HASH)"
proof -
  have t: "DEST_NAME_HASHES ''lxmf.delivery'' = Some LXMF_NAME_HASH"
    "DEST_NAME_HASHES ''nomadnetwork.node'' = Some NOMADNET_NAME_HASH"
    by (simp_all add: DEST_NAME_HASHES_def)
  have g: "name_hash g = h"
    if "VanityGenerator_init fl cpu pat md d num cs = Inr g" "DEST_NAME_HASHES d = Some h"
    for g :: "('rx, 'f) VanityGenerator" and d h
    using that by (auto simp: VanityGenerator_init_def split: sum.splits)
  show ?thesis
    using t g [OF _ t(1)] g [OF _ t(2)]
    by (simp add: bytes_hex_LXMF bytes_hex_NOMADNET compute_name_hash_lxmf
        compute_name_hash_nomadnet)
qed

theorem well_known_name_hashes_witness:
  "name_hash example_generator = LXMF_NAME_HASH
   \<and> bytes_hex (name_hash example_generator) = ''6ec60bc318e2c0f0d908''
   \<and> (\<exists>g. VanityGenerator_init exact_ops None ''be'' CONTAINS ''nomadnetwork.node'' 2 False
              = Inr (g :: (unit, rat) VanityGenerator)
          \<and> name_hash g = NOMADNET_NAME_HASH)"
proof -
  note w = well_known_name_hashes [of exact_ops None "''dead''" PREFIX 1 False]
    well_known_name_hashes [of exact_ops None "''be''" CONTAINS 2 False]
  have v: "validate_hex_pattern ''be'' = Inr ''be''"
    by (simp add: validate_hex_pattern_def strip_def lstrip_def rstrip_def lower_def
        lower_char_def isspace_def hexdigits_def)
  obtain g :: "(unit, rat) VanityGenerator"
    where g: "VanityGenerator_init exact_ops None ''be'' CONTAINS ''nomadnetwork.node'' 2 False = Inr g"
    by (simp add: VanityGenerator_init_def v DEST_NAME_HASHES_def)
  show ?thesis
    using w init_example g by auto
qed

text \<open>
  C5. Calling \<open>start\<close> while the orchestrator is running raises \<open>RuntimeError\<close> (the
  specification's AlreadyRunningError) and leaves the state as it was, so no worker is
  spawned. In particular a second \<open>start\<close> after a first one, with any steps of the
  workers in between, raises.
\<close>

theorem start_while_running:
  "(is_running s \<longrightarrow> start clock s = (Some RuntimeError, s))
   \<and> (\<not> is_running s \<longrightarrow>
        fst (start c1 s) = None
        \<and> start c2 (run_procs rc rs sched (snd (start c1 s)))
            = (Some RuntimeError, run_procs rc rs sched (snd (start c1 s))))"
  by (simp add: start_def Let_def)

theorem start_while_running_witness:
  "fst (start (\<lambda>k. 0) example_generator) = None
   \<and> start (\<lambda>k. 1) (snd (start (\<lambda>k. 0) example_generator))
       = (Some RuntimeError, snd (start (\<lambda>k. 0) example_generator))"
  using start_while_running [of example_generator "\<lambda>k. 0" "\<lambda>k. 0" "\<lambda>k. 1"
      "\<lambda>p f. None" "\<lambda>r x. False" "[]"]
    start_while_running [of "snd (start (\<lambda>k. 0) example_generator)" "\<lambda>k. 1"]
  by (simp add: example_generator_def run_procs_def)

text \<open>
  C6. \<open>stop\<close> is idempotent: a second call right after a first one returns the same list
  of results and leaves the same state as the first call did. The list returned is the
  list of collected results, and \<open>stop\<close> called right after \<open>start\<close>, before any worker
  has taken a step, returns the empty list.
\<close>

theorem stop_idempotent:
  "stop fl rc rs segs2 clock2 (snd (stop fl rc rs segs1 clock1 s)) = stop fl rc rs segs1 clock1 s
   \<and> fst (stop fl rc rs segs1 clock1 s) = results (snd (stop fl rc rs segs1 clock1 s))
   \<and> (\<not> is_running s \<longrightarrow> fst (stop fl rc rs [] clock1 (snd (start clock0 s))) = [])"
proof -
  define t where "t = snd (stop fl rc rs segs1 clock1 s)"
  have "stop fl rc rs segs2 clock2 t = (results t, t)"
    unfolding t_def
    by (rule stop_stopped) (simp_all add: stop_snd_fields stop_sets_event stop_empties_queue)
  then show ?thesis
    by (simp add: t_def stop_snd_fields(5) [symmetric] stop_after_start)
qed

theorem stop_idempotent_witness:
  "fst (stop exact_ops (\<lambda>p f. None) (\<lambda>r x. False) [] (\<lambda>k. 1)
          (snd (start (\<lambda>k. 0) example_generator))) = []"
  using stop_idempotent [of exact_ops "\<lambda>p f. None" "\<lambda>r x. False" "[]" "\<lambda>k. 1" "[]" "\<lambda>k. 1"
      example_generator "\<lambda>k. 0"]
  by (simp add: example_generator_def)




section \<open>The shared counter\<close>

lemma uint_counter_add: "uint (counter_add c n) = (uint c + n) mod 2 ^ 64"
  unfolding counter_add_def uint_word_of_int by simp

lemma counter_add_zero: "counter_add c 0 = c"
  by (simp add: counter_add_def)

lemma counter_add_mono:
  "0 \<le> n \<Longrightarrow> uint c + n < 2 ^ 64 \<Longrightarrow> c \<le> counter_add c n"
  by (simp add: word_le_def uint_counter_add)

lemma search_worker_step_counters:
  "\<exists>k. (k = 0 \<or> k = local_count w) \<and>
       counters (fst (search_worker_step rc rs keys h w))
         = (counters h)(w_counter w := counter_add (counters h (w_counter w)) k)"
proof (cases "wpc w")
  case AtMatchAdd
  then show ?thesis by (auto simp: search_worker_step_def flush_count_def)
next
  case AtBatchAdd
  then show ?thesis by (auto simp: search_worker_step_def flush_count_def)
next
  case AtExitAdd
  show ?thesis
  proof (cases "local_count w > 0")
    case True
    with AtExitAdd show ?thesis by (auto simp: search_worker_step_def flush_count_def)
  next
    case False
    with AtExitAdd show ?thesis
      by (auto simp: search_worker_step_def counter_add_zero intro!: exI [of _ 0])
  qed
qed (auto simp: search_worker_step_def Let_def counter_add_zero intro!: exI [of _ 0]
      split: sum.splits option.splits bool.splits)

lemma search_worker_step_local_count:
  "0 \<le> local_count w \<Longrightarrow> 0 \<le> local_count (snd (search_worker_step rc rs keys h w))"
  by (cases "wpc w")
     (auto simp: search_worker_step_def Let_def split: sum.splits option.splits bool.splits)

text \<open>
  C8, as stated, fails: the counter is an unsigned 64-bit value and a write wraps around.
  A worker at the end of a batch, with 500 attempts counted, writes to a counter that
  holds 18446744073709551500 (a multiple of 500 just below \<open>2 ^ 64\<close>) and leaves it at
  384.
\<close>

theorem counter_wraps_counterexample:
  "0 \<le> local_count (blank_worker\<lparr>local_count := 500, wpc := AtBatchAdd\<rparr> :: unit worker)
   \<and> counters (fst (search_worker_step (\<lambda>p f. None) (\<lambda>r x. False)
          \<lparr>x_prv = [], x_pub = [], e_prv = [], e_pub = []\<rparr>
          (empty_store\<lparr>counters := (\<lambda>a. 18446744073709551500)\<rparr>)
          (blank_worker\<lparr>local_count := 500, wpc := AtBatchAdd\<rparr> :: unit worker))) 0 = 384
   \<and> (384 :: 64 word) < 18446744073709551500"
  by (simp add: search_worker_step_def flush_count_def blank_worker_def empty_store_def
      counter_add_def)

text \<open>
  C8, amended. The count a worker accumulates is never negative, every step of a worker
  leaves each counter unchanged or adds to the worker's counter, modulo \<open>2 ^ 64\<close>, a
  count between 0 and the locally accumulated one, and as long as the sum stays below
  \<open>2 ^ 64\<close> no counter decreases.
\<close>

theorem counter_write_nonnegative:
  "0 \<le> local_count w \<longrightarrow>
     0 \<le> local_count (snd (search_worker_step rc rs keys h w))
     \<and> (\<exists>k. 0 \<le> k \<and> k \<le> local_count w
            \<and> counters (fst (search_worker_step rc rs keys h w))
                = (counters h)(w_counter w := counter_add (counters h (w_counter w)) k))
     \<and> (uint (counters h (w_counter w)) + local_count w < 2 ^ 64
          \<longrightarrow> (\<forall>a. counters h a \<le> counters (fst (search_worker_step rc rs keys h w)) a))"
proof (intro impI conjI)
  assume n: "0 \<le> local_count w"
  show "0 \<le> local_count (snd (search_worker_step rc rs keys h w))"
    using n by (rule search_worker_step_local_count)
  obtain k where k: "k = 0 \<or> k = local_count w"
    "counters (fst (search_worker_step rc rs keys h w))
       = (counters h)(w_counter w := counter_add (counters h (w_counter w)) k)"
    using search_worker_step_counters [of w rc rs keys h] by blast
  show "\<exists>k. 0 \<le> k \<and> k \<le> local_count w
            \<and> counters (fst (search_worker_step rc rs keys h w))
                = (counters h)(w_counter w := counter_add (counters h (w_counter w)) k)"
    using k n by (intro exI [of _ k]) auto
  assume b: "uint (counters h (w_counter w)) + local_count w < 2 ^ 64"
  have "counters h (w_counter w) \<le> counter_add (counters h (w_counter w)) k"
    using k(1) n b by (intro counter_add_mono) auto
  then show "\<forall>a. counters h a \<le> counters (fst (search_worker_step rc rs keys h w)) a"
    by (simp add: k(2))
qed

theorem counter_write_nonnegative_witness:
  "counters (fst (search_worker_step (\<lambda>p f. None) (\<lambda>r x. False)
          \<lparr>x_prv = [], x_pub = [], e_prv = [], e_pub = []\<rparr>
          (empty_store\<lparr>counters := (\<lambda>a. 1000)\<rparr>)
          (blank_worker\<lparr>local_count := 500, wpc := AtBatchAdd\<rparr> :: unit worker))) 0 = 1500
   \<and> (1000 :: 64 word) \<le> 1500"
  using counter_write_nonnegative [of "blank_worker\<lparr>local_count := 500, wpc := AtBatchAdd\<rparr> :: unit worker"
      "\<lambda>p f. None" "\<lambda>r x. False" "\<lparr>x_prv = [], x_pub = [], e_prv = [], e_pub = []\<rparr>"
      "empty_store\<lparr>counters := (\<lambda>a. 1000)\<rparr>"]
  by (simp add: search_worker_step_def flush_count_def blank_worker_def empty_store_def
      counter_add_def)

section \<open>A match is buffered before the signal is set\<close>

lemma step_args [simp]:
  "w_result_queue (snd (search_worker_step rc rs keys h w)) = w_result_queue w"
  "w_stop_event (snd (search_worker_step rc rs keys h w)) = w_stop_event w"
  "w_counter (snd (search_worker_step rc rs keys h w)) = w_counter w"
  by (cases "wpc w";
      simp add: search_worker_step_def Let_def split: sum.split option.split bool.split)+

lemma feeder_step_args [simp]:
  "w_result_queue (snd (feeder_step h w)) = w_result_queue w"
  "w_stop_event (snd (feeder_step h w)) = w_stop_event w"
  "w_counter (snd (feeder_step h w)) = w_counter w"
  by (simp_all add: feeder_step_def split: list.split)

lemma act_step_args [simp]:
  "w_result_queue (snd (act_step rc rs a h w)) = w_result_queue w"
  "w_stop_event (snd (act_step rc rs a h w)) = w_stop_event w"
  "w_counter (snd (act_step rc rs a h w)) = w_counter w"
  by (cases a; simp)+










lemma proc_step_collected [simp]: "collected (proc_step rc rs pk s) = collected s"
  by (simp add: collected_def proc_step_def Let_def)





lemma triple_make_result [simp]: "triple (make_result fl now s tot g) = g"
  by (simp add: triple_def make_result_def Let_def)



lemma inv_flags [simp]:
  "inv (s\<lparr>is_running := b\<rparr>) = inv s"
  "inv (s\<lparr>workers := ws\<rparr>) = inv s"
  by (simp_all add: inv_def well_formed_def match_published_def collected_def)


















end
